theory Spec2Isabelle
  imports Complex_Main "HOL-Library.Mapping" "HOL-Library.AList_Mapping" "HOL-Library.AList"
    "HOL-Library.Sublist"
begin

section \<open>Messages (backend/app/bus/schemas.py)\<close>

text \<open>
  Clock readings (\<^verbatim>\<open>time.time()\<close>, \<^verbatim>\<open>datetime.now()\<close>) are inputs of the model; they
  are exact rationals (seconds). Python dictionaries with open contents
  (\<^verbatim>\<open>Dict[str, Any]\<close>) are association lists of a small value type; an ISO-formatted time
  stamp inside a payload is kept as the number it prints.
\<close>

datatype MessageType = REQUEST | RESPONSE | EVENT | ERROR

datatype Priority = LOW | NORMAL | HIGH | URGENT

datatype pyvalue =
    VStr string
  | VBool bool
  | VNum rat
  | VList "pyvalue list"

type_synonym pydict = "(string \<times> pyvalue) list"

text \<open>
  The dataclass \<^verbatim>\<open>A2AMessage\<close>. The fields \<^verbatim>\<open>context\<close>, \<^verbatim>\<open>retry_count\<close> and
  \<^verbatim>\<open>max_retries\<close> carry the prefix \<open>msg_\<close>: the first is a reserved word of the
  theory language, the other two are also attributes of the agent.
\<close>

record A2AMessage =
  conversation_id :: string
  task_id :: string
  from_agent :: string
  to_agent :: string
  message_type :: MessageType
  action :: string
  payload :: pydict
  message_id :: string
  msg_context :: pydict
  timestamp :: rat
  priority :: Priority
  expires_at :: "rat option"
  status :: string
  msg_retry_count :: int
  msg_max_retries :: int
  error_message :: "string option"

text \<open>
  The constructor call with the keyword arguments that the repository passes. An absent
  \<^verbatim>\<open>message_id\<close> takes the default factory \<^verbatim>\<open>str(uuid.uuid4())\<close>, whose draw is the input
  \<open>uuid4\<close>; a given one is stored as it is. The remaining fields take the dataclass defaults.
\<close>

definition A2AMessage_init ::
  "string \<Rightarrow> string option \<Rightarrow> string \<Rightarrow> string \<Rightarrow> string \<Rightarrow> string \<Rightarrow> MessageType \<Rightarrow> string
    \<Rightarrow> pydict \<Rightarrow> pydict \<Rightarrow> rat \<Rightarrow> Priority \<Rightarrow> A2AMessage" where
  "A2AMessage_init uuid4 mid conv task sender dest mtype act pl ctx ts prio =
     \<lparr> conversation_id = conv, task_id = task, from_agent = sender, to_agent = dest,
       message_type = mtype, action = act, payload = pl,
       message_id = (case mid of None \<Rightarrow> uuid4 | Some given \<Rightarrow> given),
       msg_context = ctx, timestamp = ts, priority = prio, expires_at = None,
       status = ''pending'', msg_retry_count = 0, msg_max_retries = 3,
       error_message = None \<rparr>"

section \<open>The message bus (backend/app/bus/message_bus.py)\<close>

text \<open>
  The attributes of \<^verbatim>\<open>MessageBus\<close>. The counters of \<^verbatim>\<open>self._stats\<close> are the record
  \<open>BusStats\<close>, whose fields are the dictionary's keys. The sets
  \<^verbatim>\<open>_processed_messages\<close> and \<^verbatim>\<open>_processing_messages\<close> are \<open>processed_set\<close> and
  \<open>processing_set\<close> (the plain names are keys of the statistics). The two dictionaries
  are mappings. Subscribed callbacks are compared by identity in the source, so a callback
  is a value of the type \<open>'h\<close> that names it; what it does when awaited is an input of
  the dispatch loop. The queue is the list of its items, oldest first; an absent queue
  and an empty one are the same list.
\<close>

record BusStats =
  total_messages :: int
  processed_messages :: int
  duplicate_messages :: int
  failed_messages :: int

record 'h MessageBus =
  subscribers :: "(string, 'h list) mapping"
  queue :: "A2AMessage list"
  processed_set :: "string set"
  processing_set :: "string set"
  message_timestamps :: "(string, rat) mapping"
  message_ttl :: rat
  cleanup_interval :: rat
  stats :: BusStats

definition zero_stats :: BusStats where
  "zero_stats = \<lparr> total_messages = 0, processed_messages = 0, duplicate_messages = 0,
                   failed_messages = 0 \<rparr>"

definition MessageBus_init :: "'h MessageBus" where
  "MessageBus_init =
     \<lparr> subscribers = Mapping.empty, queue = [], processed_set = {}, processing_set = {},
       message_timestamps = Mapping.empty, message_ttl = 300, cleanup_interval = 60,
       stats = zero_stats \<rparr>"

definition generate_message_key :: "A2AMessage \<Rightarrow> string" where
  "generate_message_key message =
     conversation_id message @ '':'' @ action message @ '':'' @ message_id message"

definition is_duplicate_message :: "A2AMessage \<Rightarrow> 'h MessageBus \<Rightarrow> bool" where
  "is_duplicate_message message b =
     (let message_key = generate_message_key message
      in message_key \<in> processed_set b \<or> message_key \<in> processing_set b)"

definition mark_message_processing :: "rat \<Rightarrow> A2AMessage \<Rightarrow> 'h MessageBus \<Rightarrow> 'h MessageBus" where
  "mark_message_processing now message b =
     (let message_key = generate_message_key message
      in b\<lparr> processing_set := insert message_key (processing_set b),
            message_timestamps := Mapping.update message_key now (message_timestamps b) \<rparr>)"

definition mark_message_processed :: "rat \<Rightarrow> A2AMessage \<Rightarrow> 'h MessageBus \<Rightarrow> 'h MessageBus" where
  "mark_message_processed now message b =
     (let message_key = generate_message_key message
      in b\<lparr> processing_set := processing_set b - {message_key},
            processed_set := insert message_key (processed_set b),
            message_timestamps := Mapping.update message_key now (message_timestamps b) \<rparr>)"

text \<open>
  \<^verbatim>\<open>_cleanup_old_messages\<close>: the keys whose time stamp is older than the TTL leave both
  sets and the time-stamp dictionary.
\<close>

definition expired_keys :: "rat \<Rightarrow> 'h MessageBus \<Rightarrow> string set" where
  "expired_keys current_time b =
     Mapping.keys (Mapping.filter (\<lambda>key ts. current_time - ts > message_ttl b)
                                  (message_timestamps b))"

definition cleanup_old_messages :: "rat \<Rightarrow> 'h MessageBus \<Rightarrow> 'h MessageBus" where
  "cleanup_old_messages current_time b =
     b\<lparr> processed_set := processed_set b - expired_keys current_time b,
        processing_set := processing_set b - expired_keys current_time b,
        message_timestamps :=
          Mapping.filter (\<lambda>key ts. \<not> current_time - ts > message_ttl b) (message_timestamps b) \<rparr>"

text \<open>
  \<^verbatim>\<open>subscribe\<close> appends to the list under the agent id, which the \<^verbatim>\<open>defaultdict\<close>
  creates when it is missing. \<^verbatim>\<open>unsubscribe\<close> removes the first occurrence of the
  callback and leaves the (possibly empty) list under the key.
\<close>

definition subscribe :: "string \<Rightarrow> 'h \<Rightarrow> 'h MessageBus \<Rightarrow> 'h MessageBus" where
  "subscribe agent handler b =
     b\<lparr> subscribers :=
          Mapping.update agent (Mapping.lookup_default [] (subscribers b) agent @ [handler])
                         (subscribers b) \<rparr>"

definition unsubscribe :: "string \<Rightarrow> 'h \<Rightarrow> 'h MessageBus \<Rightarrow> 'h MessageBus" where
  "unsubscribe agent handler b =
     (if handler \<in> set (Mapping.lookup_default [] (subscribers b) agent)
      then b\<lparr> subscribers :=
                Mapping.update agent (remove1 handler (Mapping.lookup_default [] (subscribers b) agent))
                               (subscribers b) \<rparr>
      else b)"

text \<open>
  \<^verbatim>\<open>publish\<close>. \<open>now\<close> is the reading of \<^verbatim>\<open>time.time()\<close> taken when the key is marked;
  \<open>put_ok\<close> tells whether \<^verbatim>\<open>queue.put\<close> returned. When it raised, the key leaves the
  processing set and the exception goes to the caller (\<open>Inl\<close>).
\<close>

datatype bus_error = QueuePutFailed

definition publish ::
  "rat \<Rightarrow> bool \<Rightarrow> A2AMessage \<Rightarrow> 'h MessageBus \<Rightarrow> (bus_error + bool) \<times> 'h MessageBus" where
  "publish now put_ok message b =
     (let b1 = b\<lparr> stats := (stats b)\<lparr> total_messages := total_messages (stats b) + 1 \<rparr> \<rparr>
      in if is_duplicate_message message b1
         then (Inr False,
               b1\<lparr> stats := (stats b1)\<lparr> duplicate_messages := duplicate_messages (stats b1) + 1 \<rparr> \<rparr>)
         else let b2 = mark_message_processing now message b1
              in if put_ok
                 then (Inr True, b2\<lparr> queue := queue b2 @ [message] \<rparr>)
                 else (Inl QueuePutFailed,
                       b2\<lparr> processing_set := processing_set b2 - {generate_message_key message} \<rparr>))"

definition reset_stats :: "'h MessageBus \<Rightarrow> 'h MessageBus" where
  "reset_stats b = b\<lparr> stats := zero_stats \<rparr>"

text \<open>
  \<^verbatim>\<open>stop\<close> cancels the dispatch task and clears the queue, both sets and the time stamps.
\<close>

definition stop :: "'h MessageBus \<Rightarrow> 'h MessageBus" where
  "stop b = b\<lparr> queue := [], processed_set := {}, processing_set := {},
              message_timestamps := Mapping.empty \<rparr>"

text \<open>
  \<^verbatim>\<open>get_stats\<close>: the four counters, extended by the sizes the source adds.
\<close>

record StatsReport = BusStats +
  active_subscribers :: int
  processing_messages :: int
  processed_messages_cache :: int
  queue_size :: int

definition get_stats :: "'h MessageBus \<Rightarrow> StatsReport" where
  "get_stats b =
     \<lparr> total_messages = total_messages (stats b),
       processed_messages = processed_messages (stats b),
       duplicate_messages = duplicate_messages (stats b),
       failed_messages = failed_messages (stats b),
       active_subscribers = int (card (Mapping.keys (subscribers b))),
       processing_messages = int (card (processing_set b)),
       processed_messages_cache = int (card (processed_set b)),
       queue_size = int (length (queue b)) \<rparr>"

subsection \<open>Handler tasks and the dispatch loop\<close>

text \<open>
  What an awaited callback does is outside the bus: it returns, raises an exception or is
  cancelled, and while it runs the bus may be called (the agent runtime publishes its
  responses from inside the callback). A \<open>handler_run\<close> records these calls in order,
  the outcome, and the reading of \<^verbatim>\<open>time.time()\<close> that \<^verbatim>\<open>_mark_message_processed\<close>
  takes afterwards.
\<close>

datatype 'h bus_call =
    Publish rat bool A2AMessage
  | Subscribe string 'h
  | Unsubscribe string 'h
  | ResetStats

fun apply_call :: "'h bus_call \<Rightarrow> 'h MessageBus \<Rightarrow> 'h MessageBus" where
  "apply_call (Publish now put_ok message) b = snd (publish now put_ok message b)"
| "apply_call (Subscribe agent handler) b = subscribe agent handler b"
| "apply_call (Unsubscribe agent handler) b = unsubscribe agent handler b"
| "apply_call ResetStats b = reset_stats b"

datatype handler_outcome = Returned | Raised | Cancelled

record 'h handler_run =
  calls :: "'h bus_call list"
  outcome :: handler_outcome
  marked_at :: rat

datatype task_result = Skipped | Succeeded | Failed | TaskCancelled

text \<open>
  \<^verbatim>\<open>_handle_message_safely\<close>, the body of one task. The tasks of one message all take the
  lock of the same destination agent, so their bodies run one after the other; the model
  runs them in the order of the handler list.
\<close>

definition handle_message_safely ::
  "('h \<Rightarrow> A2AMessage \<Rightarrow> 'h handler_run) \<Rightarrow> A2AMessage \<Rightarrow> 'h \<Rightarrow> 'h MessageBus
     \<Rightarrow> task_result \<times> 'h MessageBus" where
  "handle_message_safely run message handler b =
     (let message_key = generate_message_key message
      in if message_key \<in> processed_set b then (Skipped, b)
         else
           let r = run handler message;
               b1 = fold apply_call (calls r) b
           in case outcome r of
                Returned \<Rightarrow>
                  let b2 = mark_message_processed (marked_at r) message b1
                  in (Succeeded,
                      b2\<lparr> stats := (stats b2)\<lparr> processed_messages := processed_messages (stats b2) + 1 \<rparr> \<rparr>)
              | Cancelled \<Rightarrow> (TaskCancelled, b1)
              | Raised \<Rightarrow>
                  let b2 = b1\<lparr> stats := (stats b1)\<lparr> failed_messages := failed_messages (stats b1) + 1 \<rparr> \<rparr>
                  in (Failed, mark_message_processed (marked_at r) message b2))"

fun run_tasks ::
  "('h \<Rightarrow> A2AMessage \<Rightarrow> 'h handler_run) \<Rightarrow> A2AMessage \<Rightarrow> 'h list \<Rightarrow> 'h MessageBus
     \<Rightarrow> ('h \<times> task_result) list \<times> 'h MessageBus" where
  "run_tasks run message [] b = ([], b)"
| "run_tasks run message (handler # handlers) b =
     (let (r, b1) = handle_message_safely run message handler b;
          (rs, b2) = run_tasks run message handlers b1
      in ((handler, r) # rs, b2))"

text \<open>
  One turn of the loop of \<^verbatim>\<open>_dispatch\<close>. The state of the loop is its local
  \<^verbatim>\<open>last_cleanup\<close> and the bus. \<open>current_time\<close> is the reading at the top of the loop,
  \<open>cleanup_time\<close> the one inside \<^verbatim>\<open>_cleanup_old_messages\<close>. With an empty queue the wait
  times out and the loop goes on. The result lists, for the dequeued message, each
  callback with what its task did.
\<close>

definition periodic_cleanup :: "rat \<Rightarrow> rat \<Rightarrow> rat \<times> 'h MessageBus \<Rightarrow> rat \<times> 'h MessageBus" where
  "periodic_cleanup current_time cleanup_time s =
     (let (last_cleanup, b) = s
      in if current_time - last_cleanup > cleanup_interval b
         then (current_time, cleanup_old_messages cleanup_time b)
         else (last_cleanup, b))"

definition dispatch_iteration ::
  "('h \<Rightarrow> A2AMessage \<Rightarrow> 'h handler_run) \<Rightarrow> rat \<Rightarrow> rat \<Rightarrow> rat \<times> 'h MessageBus
     \<Rightarrow> ('h \<times> task_result) list \<times> rat \<times> 'h MessageBus" where
  "dispatch_iteration run current_time cleanup_time s =
     (let (last_cleanup1, b1) = periodic_cleanup current_time cleanup_time s
      in case queue b1 of
           [] \<Rightarrow> ([], last_cleanup1, b1)
         | message # rest \<Rightarrow>
             let b2 = b1\<lparr> queue := rest \<rparr>;
                 message_key = generate_message_key message
             in if to_agent message \<notin> Mapping.keys (subscribers b2) then ([], last_cleanup1, b2)
                else if message_key \<in> processed_set b2 then ([], last_cleanup1, b2)
                else
                  let handlers = Mapping.lookup_default [] (subscribers b2) (to_agent message)
                  in if handlers \<noteq> []
                     then let (results, b3) = run_tasks run message handlers b2
                          in (results, last_cleanup1, b3)
                     else ([], last_cleanup1, b2))"

text \<open>The callbacks that a turn of the loop awaited (a skipped task awaits none).\<close>

definition invoked :: "('h \<times> task_result) list \<Rightarrow> 'h list" where
  "invoked results = map fst (filter (\<lambda>(h, r). r \<noteq> Skipped) results)"

subsection \<open>Histories of the bus\<close>

text \<open>
  What can happen to a bus, one event at a time: a call of its interface, a turn of the
  dispatch loop (with the behaviour of the callbacks during that turn), or \<^verbatim>\<open>stop\<close>.
\<close>

datatype 'h bus_op =
    Call "'h bus_call"
  | Iterate "'h \<Rightarrow> A2AMessage \<Rightarrow> 'h handler_run" rat rat
  | Stop

fun step :: "'h bus_op \<Rightarrow> rat \<times> 'h MessageBus \<Rightarrow> rat \<times> 'h MessageBus" where
  "step (Call c) (last_cleanup, b) = (last_cleanup, apply_call c b)"
| "step (Iterate run current_time cleanup_time) s =
     snd (dispatch_iteration run current_time cleanup_time s)"
| "step Stop (last_cleanup, b) = (last_cleanup, stop b)"

definition run_ops :: "'h bus_op list \<Rightarrow> rat \<times> 'h MessageBus \<Rightarrow> rat \<times> 'h MessageBus" where
  "run_ops ops s = fold step ops s"

text \<open>
  An event happens before an entry stamped at \<open>t0\<close> can expire: the maintenance of a
  turn of the loop reads a clock that is at most \<open>ttl\<close> past \<open>t0\<close>, and no task
  stamps an entry with a reading before \<open>t0\<close> (the clock does not run backwards).
\<close>

fun before_expiry :: "rat \<Rightarrow> rat \<Rightarrow> 'h bus_op \<Rightarrow> bool" where
  "before_expiry t0 ttl (Call c) = True"
| "before_expiry t0 ttl (Iterate run current_time cleanup_time) =
     (cleanup_time - t0 \<le> ttl \<and> (\<forall>h m. t0 \<le> marked_at (run h m)))"
| "before_expiry t0 ttl Stop = True"

section \<open>The agent runtime (backend/app/agents/base_agent.py)\<close>

subsection \<open>Exceptions, handlers and the agent's attributes\<close>

text \<open>
  \<^verbatim>\<open>AgentError\<close> with its text, code and recoverability; the subclasses fix the code.
  A handler raises an \<^verbatim>\<open>AgentError\<close> or some other exception (kept with its text).
\<close>

datatype AgentError = AgentError (error_text: string) (error_code: string) (recoverable: bool)

definition AgentInitializationError :: "string \<Rightarrow> AgentError" where
  "AgentInitializationError text = AgentError text ''AGENT_INIT_ERROR'' False"

definition AgentCommunicationError :: "string \<Rightarrow> AgentError" where
  "AgentCommunicationError text = AgentError text ''AGENT_COMM_ERROR'' True"

definition AgentProcessingError :: "string \<Rightarrow> bool \<Rightarrow> AgentError" where
  "AgentProcessingError text rec = AgentError text ''AGENT_PROC_ERROR'' rec"

datatype exn = AgentErr AgentError | OtherException string

text \<open>
  An action handler is a coroutine of the agent's subclass. It reads and changes state of
  its own, the world \<open>'w\<close>, and returns a dictionary or \<^verbatim>\<open>None\<close>, or raises. Handlers are
  taken not to assign the attributes of \<^verbatim>\<open>BaseAgent\<close> below.
\<close>

type_synonym 'w handler = "A2AMessage \<Rightarrow> 'w \<Rightarrow> (exn + pydict option) \<times> 'w"

record ErrorStats =
  total_errors :: int
  recoverable_errors :: int
  critical_errors :: int
  last_error :: "pydict option"
  error_types :: "(string, int) mapping"

record PerformanceStats =
  messages_processed :: int
  messages_failed :: int
  average_response_time :: rat
  last_activity :: "rat option"

text \<open>
  The attributes of \<^verbatim>\<open>BaseAgent\<close>. \<^verbatim>\<open>message_handlers\<close> is a dictionary in insertion
  order. \<^verbatim>\<open>message_bus\<close> refers to the shared bus, so the bus is passed beside the agent
  (\<open>None\<close> when the attribute is unset). A request id \<^verbatim>\<open>f"{message_id}_{timestamp}"\<close> is
  the pair of its two parts.
\<close>

record 'w BaseAgent =
  agent_id :: string
  message_handlers :: "(string \<times> 'w handler) list"
  running :: bool
  retry_count :: int
  max_retries :: int
  retry_delay :: rat
  error_stats :: ErrorStats
  performance_stats :: PerformanceStats
  processing_requests :: "(string \<times> rat) set"

definition BaseAgent_init :: "string \<Rightarrow> 'w BaseAgent" where
  "BaseAgent_init name =
     \<lparr> agent_id = name, message_handlers = [], running = False, retry_count = 0,
       max_retries = 3, retry_delay = 1,
       error_stats = \<lparr> total_errors = 0, recoverable_errors = 0, critical_errors = 0,
                       last_error = None, error_types = Mapping.empty \<rparr>,
       performance_stats = \<lparr> messages_processed = 0, messages_failed = 0,
                             average_response_time = 0, last_activity = None \<rparr>,
       processing_requests = {} \<rparr>"

definition register_handler :: "string \<Rightarrow> 'w handler \<Rightarrow> 'w BaseAgent \<Rightarrow> 'w BaseAgent" where
  "register_handler act handler self =
     self\<lparr> message_handlers := AList.update act handler (message_handlers self) \<rparr>"

text \<open>
  The clock readings and the answer of the queue during one call of
  \<^verbatim>\<open>_handle_message\<close>, in the order the source takes them.
\<close>

record clock =
  start_time :: rat
  finish_time :: rat
  error_time :: rat
  payload_time :: rat
  message_time :: rat
  bus_time :: rat
  queue_accepts :: bool

subsection \<open>Sending\<close>

text \<open>
  \<^verbatim>\<open>send_message\<close> raises a communication error without a bus, when the agent is not
  running, and when \<^verbatim>\<open>publish\<close> raises; a duplicate (\<^verbatim>\<open>False\<close>) is not an error.
\<close>

definition send_message ::
  "clock \<Rightarrow> A2AMessage \<Rightarrow> 'w BaseAgent \<Rightarrow> 'h MessageBus option
     \<Rightarrow> (AgentError + unit) \<times> 'h MessageBus option" where
  "send_message clk message self bus =
     (case bus of
        None \<Rightarrow>
          (Inl (AgentCommunicationError ''Failed to send message: MessageBus not available''), None)
      | Some b \<Rightarrow>
          if \<not> running self
          then (Inl (AgentCommunicationError
                       (''Failed to send message: Agent '' @ agent_id self @ '' is not running'')),
                Some b)
          else (case publish (bus_time clk) (queue_accepts clk) message b of
                  (Inl err, b1) \<Rightarrow>
                    (Inl (AgentCommunicationError ''Failed to send message: queue put failed''),
                     Some b1)
                | (Inr accepted, b1) \<Rightarrow> (Inr (), Some b1)))"

text \<open>The messages that \<^verbatim>\<open>_send_response\<close> and \<^verbatim>\<open>_send_error_response\<close> construct.\<close>

definition response_message :: "clock \<Rightarrow> 'w BaseAgent \<Rightarrow> A2AMessage \<Rightarrow> pydict \<Rightarrow> A2AMessage" where
  "response_message clk self original_message result =
     A2AMessage_init [] (Some (''resp_'' @ message_id original_message))
       (conversation_id original_message) (task_id original_message) (agent_id self)
       (from_agent original_message) (message_type original_message)
       (action original_message @ ''_response'') result (msg_context original_message)
       (message_time clk) (priority original_message)"

definition error_response_message ::
  "clock \<Rightarrow> 'w BaseAgent \<Rightarrow> A2AMessage \<Rightarrow> pydict \<Rightarrow> A2AMessage" where
  "error_response_message clk self original_message error_payload =
     A2AMessage_init [] (Some (''error_'' @ message_id original_message))
       (conversation_id original_message) (task_id original_message) (agent_id self)
       (from_agent original_message) (message_type original_message)
       ''error'' error_payload (msg_context original_message)
       (message_time clk) (priority original_message)"

text \<open>Both catch every exception of \<^verbatim>\<open>send_message\<close> and log it.\<close>

definition send_response ::
  "clock \<Rightarrow> 'w BaseAgent \<Rightarrow> A2AMessage \<Rightarrow> pydict \<Rightarrow> 'h MessageBus option \<Rightarrow> 'h MessageBus option" where
  "send_response clk self original_message result bus =
     snd (send_message clk (response_message clk self original_message result) self bus)"

definition send_error_response ::
  "clock \<Rightarrow> 'w BaseAgent \<Rightarrow> A2AMessage \<Rightarrow> pydict \<Rightarrow> 'h MessageBus option \<Rightarrow> 'h MessageBus option" where
  "send_error_response clk self original_message error_payload bus =
     snd (send_message clk (error_response_message clk self original_message error_payload) self bus)"

subsection \<open>Processing with retries\<close>

definition process_message :: "'w BaseAgent \<Rightarrow> 'w handler" where
  "process_message self message w =
     (case map_of (message_handlers self) (action message) of
        Some handler \<Rightarrow> handler message w
      | None \<Rightarrow>
          (Inr (Some [(''type'', VStr ''error''),
                      (''conversation_id'', VStr (conversation_id message)),
                      (''stage'', VStr ''error''),
                      (''error'', VStr (''Unknown action: '' @ action message)),
                      (''supported_actions'', VList (map (\<lambda>p. VStr (fst p)) (message_handlers self)))]),
           w))"

text \<open>
  \<^verbatim>\<open>_execute_with_retry\<close>. Beside the outcome and the world it returns what it did, in
  order: \<open>Invoke n\<close> for awaiting the handler with retry count \<open>n\<close>, \<open>Sleep d\<close> for
  \<^verbatim>\<open>asyncio.sleep(d)\<close>.
\<close>

datatype retry_event = Invoke int | Sleep rat

function execute_with_retry ::
  "'w BaseAgent \<Rightarrow> 'w handler \<Rightarrow> A2AMessage \<Rightarrow> int \<Rightarrow> 'w
     \<Rightarrow> ((exn + pydict option) \<times> 'w) \<times> retry_event list" where
  "execute_with_retry self handler message attempt w =
     (case handler message w of
        (Inr result, w1) \<Rightarrow> ((Inr result, w1), [Invoke attempt])
      | (Inl (AgentErr e), w1) \<Rightarrow>
          if recoverable e \<and> attempt < max_retries self
          then let (r, trace) = execute_with_retry self handler message (attempt + 1) w1
               in (r, Invoke attempt # Sleep (retry_delay self * of_int (attempt + 1)) # trace)
          else ((Inl (AgentErr e), w1), [Invoke attempt])
      | (Inl (OtherException text), w1) \<Rightarrow> ((Inl (OtherException text), w1), [Invoke attempt]))"
  by pat_completeness auto
termination
  by (relation "measure (\<lambda>(self, handler, message, attempt, w). nat (max_retries self - attempt))")
     auto

definition invocations :: "retry_event list \<Rightarrow> int list" where
  "invocations trace = concat (map (\<lambda>ev. case ev of Invoke n \<Rightarrow> [n] | Sleep d \<Rightarrow> []) trace)"

subsection \<open>Accounting\<close>

text \<open>
  Python's \<^verbatim>\<open>round(x, ndigits)\<close> on exact rationals: the nearest multiple of
  \<open>10 ^ -ndigits\<close>, a tie going to the even one. (On floats Python rounds the exact binary
  value of \<open>x\<close> in the same way; the representation error of floats is not modelled.)
\<close>

definition py_round :: "rat \<Rightarrow> nat \<Rightarrow> rat" where
  "py_round x ndigits =
     (let scaled = x * 10 ^ ndigits;
          lower = \<lfloor>scaled\<rfloor>;
          rest = scaled - of_int lower
      in of_int (if rest < 1 / 2 then lower
                 else if rest > 1 / 2 then lower + 1
                 else if even lower then lower else lower + 1) / 10 ^ ndigits)"

text \<open>
  \<^verbatim>\<open>_update_average_response_time\<close>. The division raises \<^verbatim>\<open>ZeroDivisionError\<close> when the
  counter is zero.
\<close>

definition update_average_response_time :: "rat \<Rightarrow> 'w BaseAgent \<Rightarrow> exn + 'w BaseAgent" where
  "update_average_response_time response_time self =
     (let current_avg = average_response_time (performance_stats self);
          total_processed = messages_processed (performance_stats self)
      in if total_processed = 1
         then Inr (self\<lparr> performance_stats :=
                          (performance_stats self)\<lparr> average_response_time := response_time \<rparr> \<rparr>)
         else if total_processed = 0 then Inl (OtherException ''float division by zero'')
         else
           let new_avg = ((current_avg * of_int (total_processed - 1)) + response_time)
                           / of_int total_processed
           in Inr (self\<lparr> performance_stats :=
                            (performance_stats self)\<lparr> average_response_time := py_round new_avg 3 \<rparr> \<rparr>))"

text \<open>The payload of the error message and the snapshot kept as \<^verbatim>\<open>last_error\<close>.\<close>

definition error_payload :: "clock \<Rightarrow> 'w BaseAgent \<Rightarrow> AgentError \<Rightarrow> pydict" where
  "error_payload clk self err =
     [(''error'', VStr (error_text err)),
      (''error_code'', VStr (error_code err)),
      (''recoverable'', VBool (recoverable err)),
      (''agent_id'', VStr (agent_id self)),
      (''timestamp'', VNum (payload_time clk))]"

definition last_error_snapshot :: "clock \<Rightarrow> A2AMessage \<Rightarrow> AgentError \<Rightarrow> pydict" where
  "last_error_snapshot clk message err =
     [(''error'', VStr (error_text err)),
      (''error_code'', VStr (error_code err)),
      (''timestamp'', VNum (error_time clk)),
      (''message_action'', VStr (action message))]"

definition handle_agent_error ::
  "clock \<Rightarrow> A2AMessage \<Rightarrow> AgentError \<Rightarrow> 'w BaseAgent \<Rightarrow> 'h MessageBus option
     \<Rightarrow> 'w BaseAgent \<times> 'h MessageBus option" where
  "handle_agent_error clk message err self bus =
     (let es = error_stats self;
          es1 = es\<lparr> total_errors := total_errors es + 1,
                    last_error := Some (last_error_snapshot clk message err) \<rparr>;
          es2 = (if recoverable err
                 then es1\<lparr> recoverable_errors := recoverable_errors es1 + 1 \<rparr>
                 else es1\<lparr> critical_errors := critical_errors es1 + 1 \<rparr>);
          error_type = error_code err;
          es3 = es2\<lparr> error_types :=
                       Mapping.update error_type
                         (Mapping.lookup_default 0 (error_types es2) error_type + 1)
                         (error_types es2) \<rparr>;
          ps = performance_stats self;
          self1 = self\<lparr> error_stats := es3,
                        performance_stats := ps\<lparr> messages_failed := messages_failed ps + 1 \<rparr> \<rparr>
      in (self1, send_error_response clk self1 message (error_payload clk self1 err) bus))"

subsection \<open>Handling one message\<close>

text \<open>Truth value of a handler's result: \<^verbatim>\<open>None\<close> and the empty dictionary are false.\<close>

definition truthy :: "pydict option \<Rightarrow> bool" where
  "truthy result = (case result of None \<Rightarrow> False | Some d \<Rightarrow> d \<noteq> [])"

text \<open>
  \<^verbatim>\<open>_handle_message\<close>. An \<^verbatim>\<open>AgentError\<close> is handled as it is, any other exception
  as a processing error that is not recoverable. The \<^verbatim>\<open>finally\<close> clause discards the
  request id on every path, also on the early return for a request id already in flight.
  Beside the agent, the bus and the world the function returns what the retry loop did.
  Cancellation of the coroutine (a \<^verbatim>\<open>CancelledError\<close>, which no clause here catches) is
  not modelled.
\<close>

definition as_agent_error :: "exn \<Rightarrow> AgentError" where
  "as_agent_error x =
     (case x of
        AgentErr e \<Rightarrow> e
      | OtherException text \<Rightarrow> AgentProcessingError (''Unexpected error: '' @ text) False)"

definition handle_message ::
  "clock \<Rightarrow> A2AMessage \<Rightarrow> 'w BaseAgent \<Rightarrow> 'h MessageBus option \<Rightarrow> 'w
     \<Rightarrow> ('w BaseAgent \<times> 'h MessageBus option \<times> 'w) \<times> retry_event list" where
  "handle_message clk message self bus w =
     (let request_id = (message_id message, start_time clk)
      in if request_id \<in> processing_requests self
         then ((self\<lparr> processing_requests := processing_requests self - {request_id} \<rparr>, bus, w), [])
         else
           let self1 = self\<lparr> processing_requests := insert request_id (processing_requests self) \<rparr>;
               self2 = self1\<lparr> performance_stats :=
                               (performance_stats self1)\<lparr> last_activity := Some (start_time clk) \<rparr> \<rparr>;
               ((r, w1), trace) = execute_with_retry self2 (process_message self2) message 0 w;
               (self3, bus1) =
                 (case r of
                    Inr result \<Rightarrow>
                      let bus2 = (if truthy result
                                  then send_response clk self2 message (the result) bus
                                  else bus);
                          self4 = self2\<lparr> performance_stats :=
                                    (performance_stats self2)\<lparr> messages_processed :=
                                       messages_processed (performance_stats self2) + 1 \<rparr> \<rparr>
                      in (case update_average_response_time (finish_time clk - start_time clk) self4 of
                            Inr self5 \<Rightarrow> (self5, bus2)
                          | Inl x \<Rightarrow> handle_agent_error clk message (as_agent_error x) self4 bus2)
                  | Inl x \<Rightarrow> handle_agent_error clk message (as_agent_error x) self2 bus)
           in ((self3\<lparr> processing_requests := processing_requests self3 - {request_id} \<rparr>, bus1, w1),
               trace))"

section \<open>Auxiliary definitions for the proofs\<close>

text \<open>
  A dedup key is live from time \<open>t0\<close> on: it is in one of the two sets, and its time
  stamp is not older than \<open>t0\<close>.
\<close>

definition key_live :: "string \<Rightarrow> rat \<Rightarrow> rat \<Rightarrow> 'h MessageBus \<Rightarrow> bool" where
  "key_live k t0 ttl b =
     ((k \<in> processing_set b \<or> k \<in> processed_set b) \<and> message_ttl b = ttl \<and>
      (case Mapping.lookup (message_timestamps b) k of None \<Rightarrow> False | Some ts \<Rightarrow> t0 \<le> ts))"

text \<open>The queued messages that have the dedup key \<open>k\<close>, oldest first.\<close>

definition queued_with_key :: "string \<Rightarrow> 'h MessageBus \<Rightarrow> A2AMessage list" where
  "queued_with_key k b = filter (\<lambda>x. generate_message_key x = k) (queue b)"

subsection \<open>Concrete inputs\<close>

definition ex_message :: A2AMessage where
  "ex_message =
     A2AMessage_init ''3f2a'' None ''conv-1'' ''task-1'' ''client'' ''A'' REQUEST ''ping'' [] [] 0 NORMAL"

definition ex_clock :: clock where
  "ex_clock = \<lparr> start_time = 10, finish_time = 169 / 16, error_time = 11, payload_time = 11,
                 message_time = 11, bus_time = 11, queue_accepts = True \<rparr>"

definition ex_agent :: "nat handler \<Rightarrow> nat BaseAgent" where
  "ex_agent handler = (register_handler ''ping'' handler (BaseAgent_init ''A''))\<lparr> running := True \<rparr>"

definition busy_handler :: "nat handler" where
  "busy_handler message w = (Inl (AgentErr (AgentProcessingError ''busy'' True)), Suc w)"

definition invalid_handler :: "nat handler" where
  "invalid_handler message w = (Inl (AgentErr (AgentProcessingError ''bad input'' False)), Suc w)"

definition crashing_handler :: "nat handler" where
  "crashing_handler message w = (Inl (OtherException ''KeyError: company''), Suc w)"

definition silent_handler :: "nat handler" where
  "silent_handler message w = (Inr None, Suc w)"

definition pong_handler :: "nat handler" where
  "pong_handler message w = (Inr (Some [(''pong'', VBool True)]), Suc w)"


text \<open>
  A producer publishes the same request again after the bus has forgotten it. The agent
  answers the request at time 11. The turn of the dispatch loop at time 400 runs the
  maintenance, which evicts the entry of the response, and takes the response off the
  queue (its destination has no subscriber). The agent answers the replayed request at
  time 501. \<open>replay\<close> is the queue of the bus after the first and after the second answer.
\<close>

definition late_clock :: clock where
  "late_clock = \<lparr> start_time = 500, finish_time = 502, error_time = 501, payload_time = 501,
                   message_time = 501, bus_time = 501, queue_accepts = True \<rparr>"

definition idle_run :: "nat \<Rightarrow> A2AMessage \<Rightarrow> nat handler_run" where
  "idle_run h m = \<lparr> calls = [], outcome = Returned, marked_at = 400 \<rparr>"

definition replay :: "A2AMessage list \<times> A2AMessage list" where
  "replay =
     (let ((a1, bus1, w1), trace1) =
            handle_message ex_clock ex_message (ex_agent pong_handler)
              (Some (MessageBus_init :: nat MessageBus)) 0;
          bus2 = map_option (\<lambda>b. snd (snd (dispatch_iteration idle_run 400 400 (0, b)))) bus1;
          ((a2, bus3, w2), trace2) = handle_message late_clock ex_message a1 bus2 w1
      in (case bus1 of None \<Rightarrow> [] | Some b \<Rightarrow> queue b,
          case bus3 of None \<Rightarrow> [] | Some b \<Rightarrow> queue b))"

text \<open>A bus on which two callbacks have subscribed for the agent \<open>A\<close>.\<close>

definition two_subscribers :: "nat MessageBus" where
  "two_subscribers = subscribe ''A'' 2 (subscribe ''A'' 1 MessageBus_init)"

definition ex_run :: "nat \<Rightarrow> A2AMessage \<Rightarrow> nat handler_run" where
  "ex_run h m = \<lparr> calls = [], outcome = Returned, marked_at = 20 \<rparr>"

definition ex_ops :: "nat bus_op list" where
  "ex_ops = [Call (Subscribe ''A'' 1), Iterate ex_run 15 15,
             Call (Publish 30 True (ex_message\<lparr> message_id := ''77c1'' \<rparr>))]"

section \<open>Deduplication in the bus\<close>

subsection \<open>A live key stays live\<close>

lemma key_live_publish:
  "key_live k t0 ttl b \<Longrightarrow> key_live k t0 ttl (snd (publish now put_ok message b))"
  by (auto simp: key_live_def publish_def is_duplicate_message_def mark_message_processing_def
      Let_def Mapping.lookup_update' split: option.splits)

lemma key_live_apply_call:
  "key_live k t0 ttl b \<Longrightarrow> key_live k t0 ttl (apply_call c b)"
proof (cases c)
  case (Publish now put_ok message)
  then show "key_live k t0 ttl b \<Longrightarrow> ?thesis" by (simp add: key_live_publish)
qed (auto simp: key_live_def subscribe_def unsubscribe_def reset_stats_def)

lemma key_live_calls:
  "key_live k t0 ttl b \<Longrightarrow> key_live k t0 ttl (fold apply_call cs b)"
  by (induction cs arbitrary: b) (simp_all add: key_live_apply_call)

lemma key_live_mark_processed:
  "key_live k t0 ttl b \<Longrightarrow> t0 \<le> now \<Longrightarrow> key_live k t0 ttl (mark_message_processed now message b)"
  by (auto simp: key_live_def mark_message_processed_def Let_def Mapping.lookup_update'
      split: option.splits)

lemma key_live_stats:
  "key_live k t0 ttl (b\<lparr> stats := st \<rparr>) = key_live k t0 ttl b"
  by (simp add: key_live_def)

lemma key_live_queue:
  "key_live k t0 ttl (b\<lparr> queue := q \<rparr>) = key_live k t0 ttl b"
  by (simp add: key_live_def)

text \<open>Maintenance before the TTL has passed since \<open>t0\<close> keeps the key.\<close>

lemma key_live_cleanup:
  assumes "key_live k t0 ttl b" and "current_time \<le> t0 + ttl"
  shows "key_live k t0 ttl (cleanup_old_messages current_time b)"
proof -
  from assms(1) obtain ts where ts: "Mapping.lookup (message_timestamps b) k = Some ts" "t0 \<le> ts"
    and ttl: "message_ttl b = ttl" and mem: "k \<in> processing_set b \<or> k \<in> processed_set b"
    by (auto simp: key_live_def split: option.splits)
  from ts assms(2) ttl have fresh: "\<not> current_time - ts > message_ttl b" by simp
  have "k \<notin> expired_keys current_time b"
    using ts fresh by (simp add: expired_keys_def keys_dom_lookup dom_def Mapping.lookup_filter)
  moreover have "Mapping.lookup (Mapping.filter (\<lambda>key ts. \<not> current_time - ts > message_ttl b)
      (message_timestamps b)) k = Some ts"
    using ts fresh by (simp add: Mapping.lookup_filter)
  ultimately show ?thesis
    using mem ttl ts by (simp add: key_live_def cleanup_old_messages_def)
qed

lemma key_live_periodic_cleanup:
  assumes "key_live k t0 ttl b" and "cleanup_time \<le> t0 + ttl"
  shows "key_live k t0 ttl (snd (periodic_cleanup current_time cleanup_time (lc, b)))"
  using assms by (simp add: periodic_cleanup_def key_live_cleanup)

lemma key_live_handle_message_safely:
  assumes "key_live k t0 ttl b" and "t0 \<le> marked_at (run handler message)"
  shows "key_live k t0 ttl (snd (handle_message_safely run message handler b))"
  using assms
  by (simp add: handle_message_safely_def Let_def key_live_stats key_live_calls
      key_live_mark_processed split: handler_outcome.splits)

lemma key_live_run_tasks:
  assumes "key_live k t0 ttl b" and "\<And>h. t0 \<le> marked_at (run h message)"
  shows "key_live k t0 ttl (snd (run_tasks run message handlers b))"
  using assms(1)
proof (induction handlers arbitrary: b)
  case Nil
  then show ?case by simp
next
  case (Cons h hs)
  have "key_live k t0 ttl (snd (handle_message_safely run message h b))"
    using Cons.prems assms(2) by (rule key_live_handle_message_safely)
  from Cons.IH [OF this] show ?case
    by (simp add: split_beta Let_def)
qed

lemma key_live_dispatch_iteration:
  assumes "key_live k t0 ttl b" and "cleanup_time \<le> t0 + ttl"
    and "\<And>h m. t0 \<le> marked_at (run h m)"
  shows "key_live k t0 ttl (snd (snd (dispatch_iteration run current_time cleanup_time (lc, b))))"
proof -
  define b1 where "b1 = snd (periodic_cleanup current_time cleanup_time (lc, b))"
  have b1: "key_live k t0 ttl b1"
    unfolding b1_def using assms(1,2) by (rule key_live_periodic_cleanup)
  show ?thesis
  proof (cases "queue b1")
    case Nil
    then show ?thesis using b1
      by (simp add: dispatch_iteration_def b1_def Let_def split_beta)
  next
    case (Cons message rest)
    have t: "key_live k t0 ttl (snd (run_tasks run message hs (b1\<lparr>queue := rest\<rparr>)))" for hs
      using b1 assms(3) by (intro key_live_run_tasks) (simp_all add: key_live_queue)
    show ?thesis using b1 Cons t
      by (simp add: dispatch_iteration_def b1_def [symmetric] Let_def split_beta key_live_queue)
  qed
qed

lemma key_live_step:
  assumes "key_live k t0 ttl (snd s)" and "before_expiry t0 ttl ev" and "ev \<noteq> Stop"
  shows "key_live k t0 ttl (snd (step ev s))"
proof (cases ev)
  case (Call c)
  then show ?thesis using assms(1) by (cases s) (simp add: key_live_apply_call)
next
  case (Iterate run current_time cleanup_time)
  then show ?thesis using assms(1,2)
    by (cases s) (simp add: key_live_dispatch_iteration)
next
  case Stop
  then show ?thesis using assms(3) by simp
qed

lemma key_live_run_ops:
  assumes "key_live k t0 ttl (snd s)" and "\<forall>ev\<in>set ops. before_expiry t0 ttl ev"
    and "Stop \<notin> set ops"
  shows "key_live k t0 ttl (snd (run_ops ops s))"
  using assms unfolding run_ops_def
proof (induction ops arbitrary: s)
  case Nil
  then show ?case by simp
next
  case (Cons ev ops)
  have "key_live k t0 ttl (snd (step ev s))"
    using Cons.prems by (intro key_live_step) auto
  then show ?case using Cons.IH [of "step ev s"] Cons.prems by simp
qed

lemma key_live_after_publish:
  assumes "publish t0 put_ok m b0 = (Inr True, b1)"
  shows "key_live (generate_message_key m) t0 (message_ttl b0) b1"
  using assms
  by (auto simp: publish_def key_live_def mark_message_processing_def Let_def split: if_splits)

lemma same_fields_same_key:
  "conversation_id m' = conversation_id m \<Longrightarrow> action m' = action m \<Longrightarrow> message_id m' = message_id m
    \<Longrightarrow> generate_message_key m' = generate_message_key m"
  by (simp add: generate_message_key_def)

lemma publish_live_key:
  assumes "key_live (generate_message_key m') t0 ttl b"
  shows "publish now put_ok m' b =
           (Inr False, b\<lparr> stats := (stats b)\<lparr> total_messages := total_messages (stats b) + 1,
                                             duplicate_messages := duplicate_messages (stats b) + 1 \<rparr> \<rparr>)"
  using assms by (auto simp: publish_def key_live_def is_duplicate_message_def Let_def)

subsection \<open>No further message with a live key enters the queue\<close>

lemma queued_publish:
  "key_live k t0 ttl b \<Longrightarrow> queued_with_key k (snd (publish now put_ok message b)) = queued_with_key k b"
  by (auto simp: queued_with_key_def key_live_def publish_def is_duplicate_message_def
      mark_message_processing_def Let_def)

lemma queued_apply_call:
  "key_live k t0 ttl b \<Longrightarrow> queued_with_key k (apply_call c b) = queued_with_key k b"
proof (cases c)
  case (Publish now put_ok message)
  then show "key_live k t0 ttl b \<Longrightarrow> ?thesis" by (simp add: queued_publish)
qed (simp_all add: queued_with_key_def subscribe_def unsubscribe_def reset_stats_def)

lemma queued_calls:
  "key_live k t0 ttl b \<Longrightarrow> queued_with_key k (fold apply_call cs b) = queued_with_key k b"
proof (induction cs arbitrary: b)
  case Nil
  then show ?case by simp
next
  case (Cons c cs)
  from Cons.prems have "key_live k t0 ttl (apply_call c b)" by (rule key_live_apply_call)
  from Cons.IH [OF this] Cons.prems show ?case by (simp add: queued_apply_call)
qed

lemma queued_handle_message_safely:
  "key_live k t0 ttl b \<Longrightarrow>
     queued_with_key k (snd (handle_message_safely run message handler b)) = queued_with_key k b"
proof -
  assume live: "key_live k t0 ttl b"
  have q: "queued_with_key k (mark_message_processed now message (c\<lparr> stats := st \<rparr>))
             = queued_with_key k c"
          "queued_with_key k ((mark_message_processed now message c)\<lparr> stats := st \<rparr>)
             = queued_with_key k c" for now c st
    by (simp_all add: queued_with_key_def mark_message_processed_def Let_def)
  show ?thesis
    using queued_calls [OF live]
    by (simp add: handle_message_safely_def Let_def q split: handler_outcome.splits)
qed

lemma queued_run_tasks:
  assumes "key_live k t0 ttl b" and "\<And>h. t0 \<le> marked_at (run h message)"
  shows "queued_with_key k (snd (run_tasks run message handlers b)) = queued_with_key k b"
  using assms(1)
proof (induction handlers arbitrary: b)
  case Nil
  then show ?case by simp
next
  case (Cons h hs)
  have "key_live k t0 ttl (snd (handle_message_safely run message h b))"
    using Cons.prems assms(2) by (rule key_live_handle_message_safely)
  from Cons.IH [OF this] queued_handle_message_safely [OF Cons.prems, of run message h]
  show ?case
    by (simp add: split_beta Let_def)
qed

lemma queued_dispatch_iteration:
  assumes "key_live k t0 ttl b" and "cleanup_time - t0 \<le> ttl"
    and "\<And>h m. t0 \<le> marked_at (run h m)"
  shows "suffix (queued_with_key k (snd (snd (dispatch_iteration run current_time cleanup_time (lc, b)))))
                (queued_with_key k b)"
proof -
  define b1 where "b1 = snd (periodic_cleanup current_time cleanup_time (lc, b))"
  have b1: "key_live k t0 ttl b1"
    unfolding b1_def using assms(1,2) by (intro key_live_periodic_cleanup) simp_all
  have q1: "queued_with_key k b1 = queued_with_key k b"
    by (simp add: b1_def queued_with_key_def periodic_cleanup_def cleanup_old_messages_def)
  show ?thesis
  proof (cases "queue b1")
    case Nil
    then show ?thesis using q1
      by (simp add: dispatch_iteration_def b1_def [symmetric] Let_def split_beta)
  next
    case (Cons message rest)
    have live: "key_live k t0 ttl (b1\<lparr>queue := rest\<rparr>)"
      using b1 by (simp add: key_live_queue)
    have t: "queued_with_key k (snd (run_tasks run message hs (b1\<lparr>queue := rest\<rparr>)))
               = queued_with_key k (b1\<lparr>queue := rest\<rparr>)" for hs
      using live assms(3) by (rule queued_run_tasks)
    have "suffix (queued_with_key k (b1\<lparr>queue := rest\<rparr>)) (queued_with_key k b1)"
      using Cons by (simp add: queued_with_key_def suffix_Cons)
    then show ?thesis using Cons t q1
      by (simp add: dispatch_iteration_def b1_def [symmetric] Let_def split_beta)
  qed
qed

lemma queued_step:
  assumes "key_live k t0 ttl (snd s)" and "before_expiry t0 ttl ev" and "ev \<noteq> Stop"
  shows "suffix (queued_with_key k (snd (step ev s))) (queued_with_key k (snd s))"
proof (cases ev)
  case (Call c)
  then show ?thesis using assms(1) by (cases s) (simp add: queued_apply_call)
next
  case (Iterate run current_time cleanup_time)
  then show ?thesis using assms(1,2)
    by (cases s) (simp add: queued_dispatch_iteration)
next
  case Stop
  then show ?thesis using assms(3) by simp
qed

lemma queued_run_ops:
  assumes "key_live k t0 ttl (snd s)" and "\<forall>ev\<in>set ops. before_expiry t0 ttl ev"
    and "Stop \<notin> set ops"
  shows "suffix (queued_with_key k (snd (run_ops ops s))) (queued_with_key k (snd s))"
  using assms unfolding run_ops_def
proof (induction ops arbitrary: s)
  case Nil
  then show ?case by simp
next
  case (Cons ev ops)
  have live: "key_live k t0 ttl (snd (step ev s))"
    using Cons.prems by (intro key_live_step) auto
  have "suffix (queued_with_key k (snd (step ev s))) (queued_with_key k (snd s))"
    using Cons.prems by (intro queued_step) auto
  moreover have "suffix (queued_with_key k (snd (fold step ops (step ev s))))
                        (queued_with_key k (snd (step ev s)))"
    using Cons.IH [OF live] Cons.prems by simp
  ultimately show ?case by (auto intro: suffix_order.trans)
qed

lemma queued_after_publish:
  assumes "publish t0 put_ok m b0 = (Inr True, b1)"
  shows "queued_with_key (generate_message_key m) b1 = queued_with_key (generate_message_key m) b0 @ [m]"
  using assms
  by (auto simp: publish_def queued_with_key_def mark_message_processing_def Let_def split: if_splits)

subsection \<open>Facts about the concrete inputs\<close>

lemma ex_agent_simps [simp]:
  "message_handlers (ex_agent handler) = [(''ping'', handler)]"
  "max_retries (ex_agent handler) = 3"
  "processing_requests (ex_agent handler) = {}"
  "running (ex_agent handler)"
  "agent_id (ex_agent handler) = ''A''"
  "performance_stats (ex_agent handler) =
     \<lparr> messages_processed = 0, messages_failed = 0, average_response_time = 0, last_activity = None \<rparr>"
  by (simp_all add: ex_agent_def register_handler_def BaseAgent_init_def)

lemma ex_message_simps [simp]:
  "action ex_message = ''ping''"
  "message_id ex_message = ''3f2a''"
  "conversation_id ex_message = ''conv-1''"
  "to_agent ex_message = ''A''"
  "from_agent ex_message = ''client''"
  by (simp_all add: ex_message_def A2AMessage_init_def)

lemma ex_clock_simps [simp]:
  "start_time ex_clock = 10"
  "finish_time ex_clock = 169 / 16"
  "bus_time ex_clock = 11"
  "queue_accepts ex_clock"
  by (simp_all add: ex_clock_def)

subsection \<open>Claim C1\<close>

text \<open>
  C1. Let \<open>publish\<close> accept a message \<open>m\<close> at time \<open>t0\<close> (it returns \<^verbatim>\<open>True\<close>). Let any
  events follow on the bus, none of them \<^verbatim>\<open>stop\<close> and each before the entry can expire:
  calls of the bus and turns of the dispatch loop, whatever the callbacks do (return,
  raise, be cancelled, call the bus themselves). Then a \<open>publish\<close> of any message \<open>m'\<close>
  with the same conversation id, action and message id returns \<^verbatim>\<open>False\<close>, counts one
  more published and one more duplicate message, and changes nothing else: the queue in
  particular stays as it is. Moreover no message with that key has entered the queue
  since \<open>m\<close>: the queued messages with the key are a final part of those queued when
  \<open>m\<close> was accepted, \<open>m\<close> being the last of them.
\<close>

theorem publish_dedup:
  assumes "publish t0 put_ok m b0 = (Inr True, b1)"
    and "run_ops ops (lc, b1) = (lc', b2)"
    and "Stop \<notin> set ops"
    and "\<forall>ev\<in>set ops. before_expiry t0 (message_ttl b0) ev"
    and "conversation_id m' = conversation_id m"
    and "action m' = action m"
    and "message_id m' = message_id m"
  shows "publish now put_ok' m' b2 =
           (Inr False, b2\<lparr> stats := (stats b2)\<lparr> total_messages := total_messages (stats b2) + 1,
                                               duplicate_messages := duplicate_messages (stats b2) + 1 \<rparr> \<rparr>) \<and>
         suffix (queued_with_key (generate_message_key m) b2)
                (queued_with_key (generate_message_key m) b0 @ [m])"
proof -
  have live: "key_live (generate_message_key m) t0 (message_ttl b0) (snd (lc, b1))"
    using key_live_after_publish [OF assms(1)] by simp
  have "key_live (generate_message_key m) t0 (message_ttl b0) (snd (run_ops ops (lc, b1)))"
    using live assms(4,3) by (rule key_live_run_ops)
  then have "key_live (generate_message_key m') t0 (message_ttl b0) b2"
    using assms(2) same_fields_same_key [OF assms(5,6,7)] by simp
  then have "publish now put_ok' m' b2 =
           (Inr False, b2\<lparr> stats := (stats b2)\<lparr> total_messages := total_messages (stats b2) + 1,
                                               duplicate_messages := duplicate_messages (stats b2) + 1 \<rparr> \<rparr>)"
    by (rule publish_live_key)
  moreover have "suffix (queued_with_key (generate_message_key m) (snd (run_ops ops (lc, b1))))
                        (queued_with_key (generate_message_key m) (snd (lc, b1)))"
    using live assms(4,3) by (rule queued_run_ops)
  then have "suffix (queued_with_key (generate_message_key m) b2)
                    (queued_with_key (generate_message_key m) b0 @ [m])"
    using assms(2) queued_after_publish [OF assms(1)] by simp
  ultimately show ?thesis by simp
qed

theorem publish_dedup_witness:
  "fst (publish 0 True ex_message (MessageBus_init :: nat MessageBus)) = Inr True \<and>
   fst (publish 40 True (ex_message\<lparr> payload := [(''again'', VBool True)] \<rparr>)
          (snd (run_ops ex_ops (0, snd (publish 0 True ex_message MessageBus_init))))) = Inr False \<and>
   queue (snd (publish 40 True (ex_message\<lparr> payload := [(''again'', VBool True)] \<rparr>)
          (snd (run_ops ex_ops (0, snd (publish 0 True ex_message MessageBus_init))))))
     = queue (snd (run_ops ex_ops (0, snd (publish 0 True ex_message (MessageBus_init :: nat MessageBus)))))"
proof -
  let ?b0 = "MessageBus_init :: nat MessageBus"
  let ?b1 = "snd (publish 0 True ex_message ?b0)"
  let ?s2 = "run_ops ex_ops (0, ?b1)"
  let ?m' = "ex_message\<lparr> payload := [(''again'', VBool True)] \<rparr>"
  have accepted: "publish 0 True ex_message ?b0 = (Inr True, ?b1)"
    by (simp add: publish_def is_duplicate_message_def MessageBus_init_def Let_def)
  have run: "?s2 = (fst ?s2, snd ?s2)"
    by simp
  have no_stop: "Stop \<notin> set ex_ops"
    by (simp add: ex_ops_def)
  have window: "\<forall>ev\<in>set ex_ops. before_expiry 0 (message_ttl ?b0) ev"
    by (simp add: ex_ops_def ex_run_def MessageBus_init_def)
  have same: "conversation_id ?m' = conversation_id ex_message" "action ?m' = action ex_message"
    "message_id ?m' = message_id ex_message"
    by simp_all
  have first: "fst (publish 0 True ex_message ?b0) = Inr True"
    by (simp add: publish_def is_duplicate_message_def MessageBus_init_def Let_def)
  from publish_dedup [OF accepted run no_stop window same, of 40 True] first
  show ?thesis by simp
qed

section \<open>The retry loop of the agent runtime\<close>

declare execute_with_retry.simps [simp del]

lemma execute_with_retry_returns:
  "handler message w = (Inr result, w1) \<Longrightarrow>
     execute_with_retry self handler message attempt w = ((Inr result, w1), [Invoke attempt])"
  by (subst execute_with_retry.simps) simp

lemma execute_with_retry_other:
  "handler message w = (Inl (OtherException msg), w1) \<Longrightarrow>
     execute_with_retry self handler message attempt w =
       ((Inl (OtherException msg), w1), [Invoke attempt])"
  by (subst execute_with_retry.simps) simp

lemma execute_with_retry_fatal:
  "handler message w = (Inl (AgentErr e), w1) \<Longrightarrow> \<not> recoverable e \<Longrightarrow>
     execute_with_retry self handler message attempt w = ((Inl (AgentErr e), w1), [Invoke attempt])"
  by (subst execute_with_retry.simps) simp

lemma execute_with_retry_exhausted:
  "handler message w = (Inl (AgentErr e), w1) \<Longrightarrow> \<not> attempt < max_retries self \<Longrightarrow>
     execute_with_retry self handler message attempt w = ((Inl (AgentErr e), w1), [Invoke attempt])"
  by (subst execute_with_retry.simps) simp

lemma execute_with_retry_again:
  "handler message w = (Inl (AgentErr e), w1) \<Longrightarrow> recoverable e \<Longrightarrow> attempt < max_retries self \<Longrightarrow>
     execute_with_retry self handler message attempt w =
       (fst (execute_with_retry self handler message (attempt + 1) w1),
        Invoke attempt # Sleep (retry_delay self * of_int (attempt + 1))
          # snd (execute_with_retry self handler message (attempt + 1) w1))"
  by (subst execute_with_retry.simps) (simp add: split_beta)

lemma invocations_simps [simp]:
  "invocations [] = []"
  "invocations (Invoke n # trace) = n # invocations trace"
  "invocations (Sleep d # trace) = invocations trace"
  by (simp_all add: invocations_def)

text \<open>
  A handler that raises a recoverable error each time is awaited with the retry counts
  from the current one up to \<^verbatim>\<open>max_retries\<close>, and the last error leaves the loop.
\<close>

lemma always_recoverable_exhausts:
  assumes always: "\<forall>w. \<exists>e w1. handler message w = (Inl (AgentErr e), w1) \<and> recoverable e"
  shows "attempt \<le> max_retries self \<Longrightarrow>
     invocations (snd (execute_with_retry self handler message attempt w)) = [attempt..max_retries self]
     \<and> (\<exists>e w1. fst (execute_with_retry self handler message attempt w) = (Inl (AgentErr e), w1)
           \<and> recoverable e)"
proof (induction "nat (max_retries self - attempt)" arbitrary: attempt w)
  case 0
  then have eq: "attempt = max_retries self" by simp
  from always obtain e w1 where h: "handler message w = (Inl (AgentErr e), w1)" "recoverable e"
    by blast
  from h eq show ?case
    by (simp add: execute_with_retry_exhausted)
next
  case (Suc k)
  then have lt: "attempt < max_retries self" by simp
  from always obtain e w1 where h: "handler message w = (Inl (AgentErr e), w1)" "recoverable e"
    by blast
  have "k = nat (max_retries self - (attempt + 1))" using Suc.hyps(2) by simp
  moreover have "attempt + 1 \<le> max_retries self" using lt by simp
  ultimately have IH: "invocations (snd (execute_with_retry self handler message (attempt + 1) w1))
        = [attempt + 1..max_retries self]
     \<and> (\<exists>e w2. fst (execute_with_retry self handler message (attempt + 1) w1) = (Inl (AgentErr e), w2)
           \<and> recoverable e)"
    by (rule Suc.hyps(1))
  have "[attempt..max_retries self] = attempt # [attempt + 1..max_retries self]"
    using lt by (simp add: upto_rec1)
  with IH h lt show ?case
    by (simp add: execute_with_retry_again)
qed

text \<open>The loop reads only \<^verbatim>\<open>max_retries\<close> and \<^verbatim>\<open>retry_delay\<close> of the agent.\<close>

lemma execute_with_retry_cong:
  "max_retries a' = max_retries a \<Longrightarrow> retry_delay a' = retry_delay a \<Longrightarrow>
     execute_with_retry a' h m n w = execute_with_retry a h m n w"
proof (induction a h m n w rule: execute_with_retry.induct)
  case (1 self handler message attempt w)
  show ?case
    apply (subst execute_with_retry.simps)
    apply (subst (2) execute_with_retry.simps)
    using 1 by (auto split: prod.splits sum.splits exn.splits)
qed

lemma process_message_registered:
  "map_of (message_handlers self) (action message) = Some handler \<Longrightarrow>
     process_message self message w = handler message w"
  by (simp add: process_message_def)

lemma process_message_fields:
  "message_handlers a' = message_handlers a \<Longrightarrow> process_message a' = process_message a"
  by (intro ext) (simp add: process_message_def split: option.splits)

lemma execute_in_handle_message:
  "execute_with_retry
     (self\<lparr> processing_requests := rs, performance_stats := ps \<rparr>)
     (process_message (self\<lparr> processing_requests := rs, performance_stats := ps \<rparr>)) message n w
   = execute_with_retry self (process_message self) message n w"
proof -
  have "process_message (self\<lparr> processing_requests := rs, performance_stats := ps \<rparr>)
          = process_message self"
    by (rule process_message_fields) simp
  moreover have "execute_with_retry (self\<lparr> processing_requests := rs, performance_stats := ps \<rparr>)
                   (process_message self) message n w
                 = execute_with_retry self (process_message self) message n w"
    by (rule execute_with_retry_cong) simp_all
  ultimately show ?thesis by simp
qed

section \<open>One message through the agent runtime\<close>

lemma response_message_in_handle_message:
  "response_message clk (self\<lparr> processing_requests := rs, performance_stats := ps \<rparr>)
     = response_message clk self"
  by (intro ext) (simp add: response_message_def)

lemma send_message_in_handle_message:
  "send_message clk message (self\<lparr> processing_requests := rs, performance_stats := ps \<rparr>) bus
     = send_message clk message self bus"
  by (simp add: send_message_def split: option.splits)

lemma send_message_bus:
  "snd (send_message clk message self bus) =
     (case bus of
        None \<Rightarrow> None
      | Some b \<Rightarrow>
          if running self
          then Some (snd (publish (bus_time clk) (queue_accepts clk) message b))
          else Some b)"
  by (simp add: send_message_def split: option.splits prod.splits sum.splits)

text \<open>The path on which the handler's result arrives.\<close>

lemma handle_message_success:
  assumes fresh: "(message_id message, start_time clk) \<notin> processing_requests self"
    and exec: "execute_with_retry self (process_message self) message 0 w = ((Inr result, w1), trace)"
    and cnt: "messages_processed (performance_stats self) \<noteq> - 1"
  shows "handle_message clk message self bus w =
    ((self\<lparr> performance_stats :=
         \<lparr> messages_processed = messages_processed (performance_stats self) + 1,
           messages_failed = messages_failed (performance_stats self),
           average_response_time =
             (if messages_processed (performance_stats self) + 1 = 1
              then finish_time clk - start_time clk
              else py_round ((average_response_time (performance_stats self)
                               * of_int (messages_processed (performance_stats self) + 1 - 1)
                              + (finish_time clk - start_time clk))
                             / of_int (messages_processed (performance_stats self) + 1)) 3),
           last_activity = Some (start_time clk) \<rparr> \<rparr>,
      (if truthy result
       then snd (send_message clk (response_message clk self message (the result)) self bus)
       else bus),
      w1), trace)"
proof -
  have fresh': "insert (message_id message, start_time clk) (processing_requests self)
                  - {(message_id message, start_time clk)} = processing_requests self"
    using fresh by auto
  show ?thesis
    using fresh cnt
    by (simp add: handle_message_def Let_def execute_in_handle_message exec
        update_average_response_time_def send_response_def fresh'
        response_message_in_handle_message send_message_in_handle_message)
qed

text \<open>The path on which an exception leaves the retry loop.\<close>

lemma error_response_message_in_handle_message:
  "error_response_message clk (self\<lparr> error_stats := es, performance_stats := ps \<rparr>)
     = error_response_message clk self"
  by (intro ext) (simp add: error_response_message_def)

lemma error_payload_in_handle_message:
  "error_payload clk (self\<lparr> error_stats := es, performance_stats := ps \<rparr>)
     = error_payload clk self"
  by (intro ext) (simp add: error_payload_def)

lemma send_message_error_stats:
  "send_message clk message (self\<lparr> error_stats := es, performance_stats := ps \<rparr>) bus
     = send_message clk message self bus"
  by (simp add: send_message_def split: option.splits)

lemma handle_agent_error_eq:
  "handle_agent_error clk message e self bus =
     (self\<lparr> error_stats :=
         \<lparr> total_errors = total_errors (error_stats self) + 1,
           recoverable_errors = recoverable_errors (error_stats self) + (if recoverable e then 1 else 0),
           critical_errors = critical_errors (error_stats self) + (if recoverable e then 0 else 1),
           last_error = Some (last_error_snapshot clk message e),
           error_types = Mapping.update (error_code e)
                           (Mapping.lookup_default 0 (error_types (error_stats self)) (error_code e) + 1)
                           (error_types (error_stats self)) \<rparr>,
         performance_stats :=
           (performance_stats self)\<lparr> messages_failed := messages_failed (performance_stats self) + 1 \<rparr> \<rparr>,
      snd (send_message clk (error_response_message clk self message (error_payload clk self e)) self bus))"
  by (simp add: handle_agent_error_def Let_def send_error_response_def
      error_response_message_in_handle_message error_payload_in_handle_message
      send_message_error_stats)

lemma handle_message_failure:
  assumes fresh: "(message_id message, start_time clk) \<notin> processing_requests self"
    and exec: "execute_with_retry self (process_message self) message 0 w = ((Inl x, w1), trace)"
  shows "handle_message clk message self bus w =
    ((self\<lparr> error_stats :=
         \<lparr> total_errors = total_errors (error_stats self) + 1,
           recoverable_errors = recoverable_errors (error_stats self)
                                  + (if recoverable (as_agent_error x) then 1 else 0),
           critical_errors = critical_errors (error_stats self)
                               + (if recoverable (as_agent_error x) then 0 else 1),
           last_error = Some (last_error_snapshot clk message (as_agent_error x)),
           error_types = Mapping.update (error_code (as_agent_error x))
                           (Mapping.lookup_default 0 (error_types (error_stats self))
                              (error_code (as_agent_error x)) + 1)
                           (error_types (error_stats self)) \<rparr>,
         performance_stats :=
           (performance_stats self)\<lparr> messages_failed := messages_failed (performance_stats self) + 1,
                                       last_activity := Some (start_time clk) \<rparr> \<rparr>,
      snd (send_message clk
             (error_response_message clk self message (error_payload clk self (as_agent_error x)))
             self bus),
      w1), trace)"
proof -
  have fresh': "insert (message_id message, start_time clk) (processing_requests self)
                  - {(message_id message, start_time clk)} = processing_requests self"
    using fresh by auto
  have pay: "error_payload clk (self\<lparr> processing_requests := rs, performance_stats := ps \<rparr>) e
               = error_payload clk self e" for rs ps e
    by (simp add: error_payload_def)
  have msg: "error_response_message clk (self\<lparr> processing_requests := rs, performance_stats := ps \<rparr>)
               = error_response_message clk self" for rs ps
    by (intro ext) (simp add: error_response_message_def)
  show ?thesis
    using fresh
    by (simp add: handle_message_def Let_def execute_in_handle_message exec
        handle_agent_error_eq fresh' pay msg send_message_in_handle_message)
qed

subsection \<open>Claim C3\<close>

text \<open>
  C3. Let the handler registered for the message's action raise a recoverable
  \<^verbatim>\<open>AgentError\<close> every time it is awaited, and let \<^verbatim>\<open>max_retries\<close> be at least zero.
  Then \<^verbatim>\<open>_handle_message\<close> awaits the handler with the retry counts 0, 1, ...,
  \<^verbatim>\<open>max_retries\<close>, that is \<^verbatim>\<open>max_retries + 1\<close> times, and then stops retrying: the
  message counts as failed and not as processed, one more error and one more recoverable
  error are counted, and the error message for the last error goes to \<^verbatim>\<open>publish\<close> (when
  the agent has a bus and is running).
\<close>

theorem retry_bound:
  assumes reg: "map_of (message_handlers self) (action message) = Some handler"
    and always: "\<forall>w. \<exists>e w1. handler message w = (Inl (AgentErr e), w1) \<and> recoverable e"
    and nonneg: "0 \<le> max_retries self"
    and fresh: "(message_id message, start_time clk) \<notin> processing_requests self"
    and res: "handle_message clk message self bus w = ((self', bus', w'), trace)"
  shows "invocations trace = [0..max_retries self] \<and>
         int (length (invocations trace)) = max_retries self + 1 \<and>
         messages_failed (performance_stats self') = messages_failed (performance_stats self) + 1 \<and>
         messages_processed (performance_stats self') = messages_processed (performance_stats self) \<and>
         total_errors (error_stats self') = total_errors (error_stats self) + 1 \<and>
         recoverable_errors (error_stats self') = recoverable_errors (error_stats self) + 1 \<and>
         (\<exists>e. recoverable e \<and>
              bus' = (case bus of
                        None \<Rightarrow> None
                      | Some b \<Rightarrow>
                          if running self
                          then Some (snd (publish (bus_time clk) (queue_accepts clk)
                                 (error_response_message clk self message (error_payload clk self e)) b))
                          else Some b))"
proof -
  have always': "\<forall>w. \<exists>e w1. process_message self message w = (Inl (AgentErr e), w1) \<and> recoverable e"
    using always by (simp add: process_message_registered [OF reg])
  obtain x w1 tr where ex: "execute_with_retry self (process_message self) message 0 w = ((x, w1), tr)"
    by (metis surj_pair)
  from always_recoverable_exhausts [of "process_message self" message 0 self w] always' nonneg ex
  obtain e where inv: "invocations tr = [0..max_retries self]" and x: "x = Inl (AgentErr e)"
    and rec: "recoverable e"
    by auto
  note hm = handle_message_failure [OF fresh ex [unfolded x], of bus]
  from res hm have tr: "trace = tr" and bus: "bus' = snd (send_message clk
             (error_response_message clk self message (error_payload clk self e)) self bus)"
    and self': "self' = self\<lparr> error_stats :=
         \<lparr> total_errors = total_errors (error_stats self) + 1,
           recoverable_errors = recoverable_errors (error_stats self) + 1,
           critical_errors = critical_errors (error_stats self),
           last_error = Some (last_error_snapshot clk message e),
           error_types = Mapping.update (error_code e)
                           (Mapping.lookup_default 0 (error_types (error_stats self)) (error_code e) + 1)
                           (error_types (error_stats self)) \<rparr>,
         performance_stats :=
           (performance_stats self)\<lparr> messages_failed := messages_failed (performance_stats self) + 1,
                                       last_activity := Some (start_time clk) \<rparr> \<rparr>"
    using rec by (simp_all add: as_agent_error_def)
  have len: "int (length [0..max_retries self]) = max_retries self + 1"
    using nonneg by simp
  show ?thesis
    using inv len rec bus unfolding tr self' send_message_bus
    by auto
qed

theorem retry_bound_witness:
  "int (length (invocations (snd (handle_message ex_clock ex_message (ex_agent busy_handler)
      (Some (MessageBus_init :: nat MessageBus)) 0)))) = 4 \<and>
   messages_failed (performance_stats (fst (fst (handle_message ex_clock ex_message
      (ex_agent busy_handler) (Some (MessageBus_init :: nat MessageBus)) 0)))) = 1"
proof -
  let ?r = "handle_message ex_clock ex_message (ex_agent busy_handler)
              (Some (MessageBus_init :: nat MessageBus)) 0"
  have reg: "map_of (message_handlers (ex_agent busy_handler)) (action ex_message) = Some busy_handler"
    by simp
  have always: "\<forall>w. \<exists>e w1. busy_handler ex_message w = (Inl (AgentErr e), w1) \<and> recoverable e"
    by (simp add: busy_handler_def AgentProcessingError_def)
  have nonneg: "0 \<le> max_retries (ex_agent busy_handler)"
    by simp
  have fresh: "(message_id ex_message, start_time ex_clock) \<notin> processing_requests (ex_agent busy_handler)"
    by simp
  have res: "?r = ((fst (fst ?r), fst (snd (fst ?r)), snd (snd (fst ?r))), snd ?r)"
    by simp
  from retry_bound [OF reg always nonneg fresh res] show ?thesis
    by simp
qed

subsection \<open>Claim C4\<close>

text \<open>
  C4. Let the handler registered for the message's action raise, when first awaited, an
  \<^verbatim>\<open>AgentError\<close> that is not recoverable, or any exception that is not an
  \<^verbatim>\<open>AgentError\<close>. Then \<^verbatim>\<open>_handle_message\<close> awaits the handler exactly once, without a
  sleep or a retry, whatever \<^verbatim>\<open>max_retries\<close> is; the error is handled as not recoverable
  (one more critical error), the message counts as failed, and the error message goes to
  \<^verbatim>\<open>publish\<close> (when the agent has a bus and is running).
\<close>

theorem non_recoverable_once:
  assumes reg: "map_of (message_handlers self) (action message) = Some handler"
    and raised: "handler message w = (Inl x, w1)"
    and fatal: "case x of AgentErr e \<Rightarrow> \<not> recoverable e | OtherException msg \<Rightarrow> True"
    and fresh: "(message_id message, start_time clk) \<notin> processing_requests self"
    and res: "handle_message clk message self bus w = ((self', bus', w'), trace)"
  shows "trace = [Invoke 0] \<and> w' = w1 \<and>
         \<not> recoverable (as_agent_error x) \<and>
         messages_failed (performance_stats self') = messages_failed (performance_stats self) + 1 \<and>
         messages_processed (performance_stats self') = messages_processed (performance_stats self) \<and>
         critical_errors (error_stats self') = critical_errors (error_stats self) + 1 \<and>
         recoverable_errors (error_stats self') = recoverable_errors (error_stats self) \<and>
         bus' = (case bus of
                   None \<Rightarrow> None
                 | Some b \<Rightarrow>
                     if running self
                     then Some (snd (publish (bus_time clk) (queue_accepts clk)
                            (error_response_message clk self message
                               (error_payload clk self (as_agent_error x))) b))
                     else Some b)"
proof -
  have pm: "process_message self message w = (Inl x, w1)"
    using raised by (simp add: process_message_registered [OF reg])
  have ex: "execute_with_retry self (process_message self) message 0 w = ((Inl x, w1), [Invoke 0])"
  proof (cases x)
    case (AgentErr e)
    then show ?thesis using pm fatal by (simp add: execute_with_retry_fatal)
  next
    case (OtherException msg)
    then show ?thesis using pm by (simp add: execute_with_retry_other)
  qed
  have nr: "\<not> recoverable (as_agent_error x)"
    using fatal by (cases x) (simp_all add: as_agent_error_def AgentProcessingError_def)
  note hm = handle_message_failure [OF fresh ex, of bus]
  from res hm nr show ?thesis
    unfolding send_message_bus by auto
qed

theorem non_recoverable_once_witness:
  "snd (handle_message ex_clock ex_message ((ex_agent invalid_handler)\<lparr> max_retries := 7 \<rparr>)
      (Some (MessageBus_init :: nat MessageBus)) 0) = [Invoke 0] \<and>
   snd (snd (fst (handle_message ex_clock ex_message ((ex_agent invalid_handler)\<lparr> max_retries := 7 \<rparr>)
      (Some (MessageBus_init :: nat MessageBus)) 0))) = 1"
proof -
  let ?a = "(ex_agent invalid_handler)\<lparr> max_retries := 7 \<rparr>"
  let ?r = "handle_message ex_clock ex_message ?a (Some (MessageBus_init :: nat MessageBus)) 0"
  have reg: "map_of (message_handlers ?a) (action ex_message) = Some invalid_handler"
    by simp
  have raised: "invalid_handler ex_message 0 =
      (Inl (AgentErr (AgentProcessingError ''bad input'' False)), 1)"
    by (simp add: invalid_handler_def)
  have fatal: "case AgentErr (AgentProcessingError ''bad input'' False) of
                 AgentErr e \<Rightarrow> \<not> recoverable e | OtherException msg \<Rightarrow> True"
    by (simp add: AgentProcessingError_def)
  have fresh: "(message_id ex_message, start_time ex_clock) \<notin> processing_requests ?a"
    by simp
  have res: "?r = ((fst (fst ?r), fst (snd (fst ?r)), snd (snd (fst ?r))), snd ?r)"
    by simp
  from non_recoverable_once [OF reg raised fatal fresh res] show ?thesis
    by simp
qed

text \<open>
  The same at a concrete input for an exception that is not an \<^verbatim>\<open>AgentError\<close>: one
  invocation, counted as a critical error, reported as not recoverable.
\<close>

lemma unclassified_exception_once:
  "snd (handle_message ex_clock ex_message (ex_agent crashing_handler)
          (Some (MessageBus_init :: nat MessageBus)) 0) = [Invoke 0] \<and>
   critical_errors (error_stats (fst (fst (handle_message ex_clock ex_message
          (ex_agent crashing_handler) (Some (MessageBus_init :: nat MessageBus)) 0)))) = 1 \<and>
   map_option (\<lambda>b. map (\<lambda>m. (action m, map_of (payload m) ''recoverable'')) (queue b))
     (fst (snd (fst (handle_message ex_clock ex_message (ex_agent crashing_handler)
          (Some (MessageBus_init :: nat MessageBus)) 0))))
     = Some [(''error'', Some (VBool False))]"
  by code_simp

subsection \<open>Claim C9\<close>




subsection \<open>Claim C10\<close>

text \<open>
  C10. When the handler's result arrives and it is \<^verbatim>\<open>None\<close> or the empty dictionary,
  \<^verbatim>\<open>_handle_message\<close> leaves the bus untouched: no message is passed to \<^verbatim>\<open>publish\<close>.
  Any other result is sent as the payload of a response addressed to the sender of the
  original (passed to \<^verbatim>\<open>publish\<close> when the agent has a bus and is running).
\<close>

theorem response_only_for_truthy_result:
  assumes fresh: "(message_id message, start_time clk) \<notin> processing_requests self"
    and exec: "execute_with_retry self (process_message self) message 0 w = ((Inr result, w1), trace)"
    and cnt: "0 \<le> messages_processed (performance_stats self)"
    and res: "handle_message clk message self bus w = ((self', bus', w'), trace')"
  shows "bus' =
           (if result = None \<or> result = Some [] then bus
            else case bus of
                   None \<Rightarrow> None
                 | Some b \<Rightarrow>
                     if running self
                     then Some (snd (publish (bus_time clk) (queue_accepts clk)
                                  (response_message clk self message (the result)) b))
                     else Some b) \<and>
         to_agent (response_message clk self message d) = from_agent message \<and>
         payload (response_message clk self message d) = d"
proof -
  from cnt have "messages_processed (performance_stats self) \<noteq> - 1" by simp
  from handle_message_success [OF fresh exec this, of bus] res
  have "bus' = (if truthy result
       then snd (send_message clk (response_message clk self message (the result)) self bus)
       else bus)"
    by simp
  moreover have "truthy result \<longleftrightarrow> \<not> (result = None \<or> result = Some [])"
    by (cases result) (simp_all add: truthy_def)
  moreover have "to_agent (response_message clk self message d) = from_agent message"
    and "payload (response_message clk self message d) = d"
    by (simp_all add: response_message_def A2AMessage_init_def)
  ultimately show ?thesis
    by (simp add: send_message_bus)
qed

theorem response_only_for_truthy_result_witness:
  "fst (snd (fst (handle_message ex_clock ex_message (ex_agent silent_handler)
      (Some (MessageBus_init :: nat MessageBus)) 0))) = Some MessageBus_init"
proof -
  let ?a = "ex_agent silent_handler"
  let ?r = "handle_message ex_clock ex_message ?a (Some (MessageBus_init :: nat MessageBus)) 0"
  have fresh: "(message_id ex_message, start_time ex_clock) \<notin> processing_requests ?a"
    by simp
  have exec: "execute_with_retry ?a (process_message ?a) ex_message 0 0 = ((Inr None, 1), [Invoke 0])"
    by (rule execute_with_retry_returns) (simp add: process_message_def silent_handler_def)
  have cnt: "0 \<le> messages_processed (performance_stats ?a)"
    by simp
  have res: "?r = ((fst (fst ?r), fst (snd (fst ?r)), snd (snd (fst ?r))), snd ?r)"
    by simp
  from response_only_for_truthy_result [OF fresh exec cnt res] show ?thesis
    by simp
qed

text \<open>The counterpart at a concrete input: a non-empty result is published once.\<close>

lemma truthy_result_published:
  "map_option (\<lambda>b. (total_messages (stats b), map message_id (queue b), map to_agent (queue b)))
     (fst (snd (fst (handle_message ex_clock ex_message (ex_agent pong_handler)
        (Some (MessageBus_init :: nat MessageBus)) 0))))
   = Some (1, [''resp_3f2a''], [''client''])"
  by code_simp

section \<open>Message identifiers\<close>

subsection \<open>Claim C8\<close>

text \<open>
  C8, as the spec states it, fails. The id of a response is computed from the id of the
  original, so answering the same request twice creates two messages with one id. In
  \<open>replay\<close> the bus has accepted and queued both: two different messages (created at
  the times 11 and 501) with the id \<^verbatim>\<open>resp_3f2a\<close>.
\<close>

theorem message_id_reused_counterexample:
  "map message_id (fst replay) = [''resp_3f2a''] \<and> map timestamp (fst replay) = [11] \<and>
   map message_id (snd replay) = [''resp_3f2a''] \<and> map timestamp (snd replay) = [501]"
  by code_simp

text \<open>
  C8, amended. A message constructed without a \<^verbatim>\<open>message_id\<close> takes the id drawn by
  \<^verbatim>\<open>uuid4\<close>; a given id is kept as it is. The response to a message has the id
  \<^verbatim>\<open>resp_\<close> followed by the original's id, the error message \<^verbatim>\<open>error_\<close> followed by
  it. Both differ from the original's id and from each other, and the responses (the
  error messages) to two messages have the same id exactly when the two messages have.
\<close>

theorem derived_message_ids:
  "message_id (A2AMessage_init uuid4 None conv task sender dest mtype act pl ctx ts prio) = uuid4 \<and>
   message_id (A2AMessage_init uuid4 (Some given) conv task sender dest mtype act pl ctx ts prio) = given \<and>
   message_id (response_message clk self m result) = ''resp_'' @ message_id m \<and>
   message_id (error_response_message clk self m error_pl) = ''error_'' @ message_id m \<and>
   message_id (response_message clk self m result) \<noteq> message_id m \<and>
   message_id (error_response_message clk self m error_pl) \<noteq> message_id m \<and>
   message_id (response_message clk self m result)
     \<noteq> message_id (error_response_message clk' self' m' error_pl) \<and>
   (message_id (response_message clk self m result) = message_id (response_message clk' self' m' result')
      \<longleftrightarrow> message_id m = message_id m') \<and>
   (message_id (error_response_message clk self m error_pl)
      = message_id (error_response_message clk' self' m' error_pl') \<longleftrightarrow> message_id m = message_id m')"
proof -
  have "''resp_'' @ x \<noteq> x" and "''error_'' @ x \<noteq> x" for x :: string
    by (induction x) simp_all
  then show ?thesis
    by (simp add: response_message_def error_response_message_def A2AMessage_init_def)
qed

section \<open>Fan-out and failure in the dispatch loop\<close>

lemma processed_after_calls:
  "k \<in> processed_set b \<Longrightarrow> k \<in> processed_set (fold apply_call cs b)"
proof (induction cs arbitrary: b)
  case Nil
  then show ?case by simp
next
  case (Cons c cs)
  have "k \<in> processed_set (apply_call c b)"
    using Cons.prems
    by (cases c)
       (simp_all add: publish_def mark_message_processing_def subscribe_def unsubscribe_def
          reset_stats_def Let_def)
  then show ?case using Cons.IH by simp
qed

lemma handle_message_safely_skips:
  "generate_message_key message \<in> processed_set b \<Longrightarrow>
     handle_message_safely run message handler b = (Skipped, b)"
  by (simp add: handle_message_safely_def)

lemma run_tasks_all_skipped:
  "generate_message_key message \<in> processed_set b \<Longrightarrow>
     run_tasks run message handlers b = (map (\<lambda>h. (h, Skipped)) handlers, b)"
  by (induction handlers) (simp_all add: handle_message_safely_skips)

lemma handle_message_safely_marks:
  assumes "generate_message_key message \<notin> processed_set b"
    and "outcome (run handler message) \<noteq> Cancelled"
  shows "fst (handle_message_safely run message handler b) \<noteq> Skipped \<and>
         generate_message_key message \<in> processed_set (snd (handle_message_safely run message handler b))"
  using assms
  by (cases "outcome (run handler message)")
     (simp_all add: handle_message_safely_def mark_message_processed_def Let_def)

lemma mapping_update_twice:
  "Mapping.update k v (Mapping.update k v' m) = Mapping.update k v m"
  by (rule mapping_eqI) (simp add: Mapping.lookup_update')

lemma invoked_simps [simp]:
  "invoked [] = []"
  "invoked ((h, r) # rs) = (if r \<noteq> Skipped then h # invoked rs else invoked rs)"
  "invoked (map (\<lambda>h. (h, Skipped)) hs) = []"
  by (simp_all add: invoked_def)

subsection \<open>Claim C2\<close>

text \<open>
  C2 does not hold of the code. The tasks of one message run one after the other under
  the lock of the destination agent. The first callback that returns or raises marks the
  key as processed, and the check under the lock makes every later task return without
  awaiting its callback. Of the callbacks subscribed under one agent id only the first is
  awaited (unless it is cancelled), however many there are.
\<close>

theorem later_subscribers_skipped:
  assumes "generate_message_key message \<notin> processed_set b"
    and "outcome (run handler message) \<noteq> Cancelled"
  shows "invoked (fst (run_tasks run message (handler # handlers) b)) = [handler]"
proof -
  let ?t = "handle_message_safely run message handler b"
  from handle_message_safely_marks [of message b run handler] assms
  have first: "fst ?t \<noteq> Skipped" and marked: "generate_message_key message \<in> processed_set (snd ?t)"
    by simp_all
  from run_tasks_all_skipped [OF marked, of run handlers] first
  show ?thesis
    by (simp add: split_beta Let_def)
qed

theorem later_subscribers_skipped_witness:
  "Mapping.lookup (subscribers two_subscribers) ''A'' = Some [1, 2] \<and>
   invoked (fst (run_tasks ex_run ex_message [1, 2] two_subscribers)) = [1]"
proof -
  have new: "generate_message_key ex_message \<notin> processed_set two_subscribers"
    by (simp add: two_subscribers_def subscribe_def MessageBus_init_def)
  have returns: "outcome (ex_run 1 ex_message) \<noteq> Cancelled"
    by (simp add: ex_run_def)
  have subs: "Mapping.lookup (subscribers two_subscribers) ''A'' = Some [1, 2]"
    by (simp add: two_subscribers_def subscribe_def MessageBus_init_def lookup_default_def)
  from later_subscribers_skipped [of ex_message two_subscribers ex_run 1 "[2]"] new returns subs
  show ?thesis
    by simp
qed

text \<open>
  The same through \<^verbatim>\<open>publish\<close> and one turn of the loop: the second callback of agent
  \<open>A\<close> is not awaited.
\<close>

lemma two_subscribers_dispatch:
  "fst (dispatch_iteration ex_run 15 15 (0, snd (publish 0 True ex_message two_subscribers)))
     = [(1, Succeeded), (2, Skipped)]"
  by code_simp

subsection \<open>Claim C5\<close>

text \<open>
  C5. Let a task await its callback (the key is not yet marked as processed) and let the
  callback raise an exception other than a cancellation. With \<open>b1\<close> the bus at that
  moment (after the calls the callback itself made): the task ends as failed, the key is
  in the processed set and not in the processing set, the failure counter is one higher
  and the success counter as before, and the queue is the queue of \<open>b1\<close>: the message is
  not put back. Any later task for the message returns without awaiting its callback.
\<close>

theorem failed_handler_marked_processed:
  assumes "generate_message_key message \<notin> processed_set b"
    and "outcome (run handler message) = Raised"
  shows "fst (handle_message_safely run message handler b) = Failed \<and>
         generate_message_key message \<in> processed_set (snd (handle_message_safely run message handler b)) \<and>
         generate_message_key message \<notin> processing_set (snd (handle_message_safely run message handler b)) \<and>
         failed_messages (stats (snd (handle_message_safely run message handler b)))
           = failed_messages (stats (fold apply_call (calls (run handler message)) b)) + 1 \<and>
         processed_messages (stats (snd (handle_message_safely run message handler b)))
           = processed_messages (stats (fold apply_call (calls (run handler message)) b)) \<and>
         queue (snd (handle_message_safely run message handler b))
           = queue (fold apply_call (calls (run handler message)) b) \<and>
         handle_message_safely run' message handler' (snd (handle_message_safely run message handler b))
           = (Skipped, snd (handle_message_safely run message handler b))"
proof -
  have step: "handle_message_safely run message handler b =
      (Failed, mark_message_processed (marked_at (run handler message)) message
         ((fold apply_call (calls (run handler message)) b)
            \<lparr> stats := (stats (fold apply_call (calls (run handler message)) b))
                 \<lparr> failed_messages :=
                      failed_messages (stats (fold apply_call (calls (run handler message)) b)) + 1 \<rparr> \<rparr>))"
    using assms by (simp add: handle_message_safely_def Let_def)
  have marked: "generate_message_key message
      \<in> processed_set (snd (handle_message_safely run message handler b))"
    by (simp add: step mark_message_processed_def Let_def)
  show ?thesis
    using handle_message_safely_skips [OF marked, of run' handler']
    by (simp add: step mark_message_processed_def Let_def)
qed

theorem failed_handler_marked_processed_witness:
  "handle_message_safely (\<lambda>h m. \<lparr> calls = [], outcome = Raised, marked_at = 20 \<rparr>) ex_message 1
     (snd (publish 0 True ex_message two_subscribers))
   = (Failed,
      two_subscribers
        \<lparr> processed_set := {''conv-1:ping:3f2a''},
          message_timestamps := Mapping.update ''conv-1:ping:3f2a'' 20 Mapping.empty,
          queue := [ex_message],
          stats := \<lparr> total_messages = 1, processed_messages = 0, duplicate_messages = 0,
                     failed_messages = 1 \<rparr> \<rparr>)"
proof -
  let ?run = "\<lambda>(h :: nat) (m :: A2AMessage). \<lparr> calls = [] :: nat bus_call list, outcome = Raised, marked_at = 20 \<rparr>"
  let ?b = "snd (publish 0 True ex_message two_subscribers)"
  have b: "?b = two_subscribers
        \<lparr> processing_set := {''conv-1:ping:3f2a''},
          message_timestamps := Mapping.update ''conv-1:ping:3f2a'' 0 Mapping.empty,
          queue := [ex_message],
          stats := \<lparr> total_messages = 1, processed_messages = 0, duplicate_messages = 0,
                     failed_messages = 0 \<rparr> \<rparr>"
    by (simp add: publish_def is_duplicate_message_def mark_message_processing_def Let_def
        two_subscribers_def subscribe_def MessageBus_init_def zero_stats_def
        generate_message_key_def)
  have new: "generate_message_key ex_message \<notin> processed_set ?b"
    unfolding b by (simp add: two_subscribers_def subscribe_def MessageBus_init_def)
  have raises: "outcome (?run 1 ex_message) = Raised"
    by simp
  from failed_handler_marked_processed [of ex_message ?b ?run 1] new raises
  have "fst (handle_message_safely ?run ex_message 1 ?b) = Failed"
    by simp
  moreover have "snd (handle_message_safely ?run ex_message 1 ?b) =
      two_subscribers
        \<lparr> processed_set := {''conv-1:ping:3f2a''},
          message_timestamps := Mapping.update ''conv-1:ping:3f2a'' 20 Mapping.empty,
          queue := [ex_message],
          stats := \<lparr> total_messages = 1, processed_messages = 0, duplicate_messages = 0,
                     failed_messages = 1 \<rparr> \<rparr>"
    unfolding b
    by (simp add: handle_message_safely_def mark_message_processed_def Let_def
        two_subscribers_def subscribe_def MessageBus_init_def generate_message_key_def
        mapping_update_twice)
  ultimately show ?thesis
    by (simp add: prod_eq_iff)
qed

subsection \<open>Claim C7\<close>

lemma periodic_cleanup_fields:
  "queue (snd (periodic_cleanup current_time cleanup_time (lc, b))) = queue b"
  "subscribers (snd (periodic_cleanup current_time cleanup_time (lc, b))) = subscribers b"
  "stats (snd (periodic_cleanup current_time cleanup_time (lc, b))) = stats b"
  by (simp_all add: periodic_cleanup_def cleanup_old_messages_def)

text \<open>
  C7. Let the loop dequeue a message whose destination has no subscriber: the agent id is
  not a key of the registry, or its list is empty. With \<open>(lc1, b1)\<close> the state after the
  periodic maintenance of that turn: the turn awaits no callback and ends in \<open>b1\<close> with
  the message taken off the queue and not put back, and nothing is raised. In the report
  of \<^verbatim>\<open>get_stats\<close> the queue size is one less and every other entry is as in \<open>b1\<close>; the
  four counters are those before the turn, so the message stays counted in
  \<^verbatim>\<open>total_messages\<close> and in none of the processed, failed and duplicate counters.
\<close>

theorem unroutable_dropped:
  assumes "queue b = message # rest"
    and "Mapping.lookup_default [] (subscribers b) (to_agent message) = []"
  shows "dispatch_iteration run current_time cleanup_time (lc, b)
           = ([], fst (periodic_cleanup current_time cleanup_time (lc, b)),
              (snd (periodic_cleanup current_time cleanup_time (lc, b)))\<lparr> queue := rest \<rparr>) \<and>
         get_stats ((snd (periodic_cleanup current_time cleanup_time (lc, b)))\<lparr> queue := rest \<rparr>)
           = (get_stats (snd (periodic_cleanup current_time cleanup_time (lc, b))))
               \<lparr> queue_size := queue_size (get_stats (snd (periodic_cleanup current_time cleanup_time (lc, b)))) - 1 \<rparr> \<and>
         stats ((snd (periodic_cleanup current_time cleanup_time (lc, b)))\<lparr> queue := rest \<rparr>) = stats b"
proof -
  let ?b1 = "snd (periodic_cleanup current_time cleanup_time (lc, b))"
  have q: "queue ?b1 = message # rest" and s: "subscribers ?b1 = subscribers b"
    using assms(1) by (simp_all add: periodic_cleanup_fields)
  have "dispatch_iteration run current_time cleanup_time (lc, b)
           = ([], fst (periodic_cleanup current_time cleanup_time (lc, b)), ?b1\<lparr> queue := rest \<rparr>)"
    using assms(2) by (simp add: dispatch_iteration_def split_beta Let_def q s)
  moreover have "get_stats (?b1\<lparr> queue := rest \<rparr>)
      = (get_stats ?b1)\<lparr> queue_size := queue_size (get_stats ?b1) - 1 \<rparr>"
    by (simp add: get_stats_def q)
  moreover have "stats (?b1\<lparr> queue := rest \<rparr>) = stats b"
    by (simp add: periodic_cleanup_fields)
  ultimately show ?thesis by simp
qed

theorem unroutable_dropped_witness:
  "dispatch_iteration ex_run 15 15 (0, snd (publish 0 True ex_message (MessageBus_init :: nat MessageBus)))
     = ([], 0, (snd (publish 0 True ex_message MessageBus_init))\<lparr> queue := [] \<rparr>) \<and>
   get_stats ((snd (publish 0 True ex_message (MessageBus_init :: nat MessageBus)))\<lparr> queue := [] \<rparr>)
     = \<lparr> total_messages = 1, processed_messages = 0, duplicate_messages = 0, failed_messages = 0,
         active_subscribers = 0, processing_messages = 1, processed_messages_cache = 0,
         queue_size = 0 \<rparr>"
proof -
  let ?b = "snd (publish 0 True ex_message (MessageBus_init :: nat MessageBus))"
  have b: "?b = MessageBus_init
        \<lparr> processing_set := {''conv-1:ping:3f2a''},
          message_timestamps := Mapping.update ''conv-1:ping:3f2a'' 0 Mapping.empty,
          queue := [ex_message],
          stats := \<lparr> total_messages = 1, processed_messages = 0, duplicate_messages = 0,
                     failed_messages = 0 \<rparr> \<rparr>"
    by (simp add: publish_def is_duplicate_message_def mark_message_processing_def Let_def
        MessageBus_init_def zero_stats_def generate_message_key_def)
  have q: "queue ?b = ex_message # []"
    by (simp add: b)
  have none: "Mapping.lookup_default [] (subscribers ?b) (to_agent ex_message) = []"
    unfolding b by (simp add: MessageBus_init_def lookup_default_def)
  have "cleanup_interval ?b = 60"
    unfolding b by (simp add: MessageBus_init_def)
  then have pc: "periodic_cleanup 15 15 (0, ?b) = (0, ?b)"
    by (simp add: periodic_cleanup_def)
  have report: "get_stats (?b\<lparr> queue := [] \<rparr>)
     = \<lparr> total_messages = 1, processed_messages = 0, duplicate_messages = 0, failed_messages = 0,
         active_subscribers = 0, processing_messages = 1, processed_messages_cache = 0,
         queue_size = 0 \<rparr>"
    unfolding b by (simp add: get_stats_def MessageBus_init_def)
  from unroutable_dropped [OF q none, of ex_run 15 15 0] pc report show ?thesis
    by simp
qed

end
